theory Spec2Isabelle
  imports Main "HOL-Library.Word"
begin

unbundle bit_operations_syntax

section \<open>Platform constants\<close>

text \<open>
  The handler reads \<open>REG_RAX\<close>, \<open>REG_RBX\<close> and \<open>REG_RIP\<close> out of the machine context, so
  the platform is Linux on x86-64. The signal numbers, the \<open>sa_flags\<close> bits, the register
  indices and \<open>_NSIG\<close> below are the values of that platform's \<open>signal.h\<close> and
  \<open>ucontext.h\<close>; the source only names them.
\<close>

definition SIGHUP :: int where "SIGHUP = 1"
definition SIGILL :: int where "SIGILL = 4"
definition SIGTRAP :: int where "SIGTRAP = 5"
definition SIGABRT :: int where "SIGABRT = 6"
definition SIGBUS :: int where "SIGBUS = 7"
definition SIGFPE :: int where "SIGFPE = 8"
definition SIGKILL :: int where "SIGKILL = 9"
definition SIGUSR1 :: int where "SIGUSR1 = 10"
definition SIGSEGV :: int where "SIGSEGV = 11"
definition SIGUSR2 :: int where "SIGUSR2 = 12"
definition SIGPIPE :: int where "SIGPIPE = 13"
definition SIGALRM :: int where "SIGALRM = 14"
definition SIGSTOP :: int where "SIGSTOP = 19"
definition SIGPOLL :: int where "SIGPOLL = 29"

definition NSIG :: int where "NSIG = 65"

definition SA_SIGINFO :: "32 word" where "SA_SIGINFO = 0x4"
definition SA_RESTART :: "32 word" where "SA_RESTART = 0x10000000"
definition SA_NODEFER :: "32 word" where "SA_NODEFER = 0x40000000"
definition SA_RESETHAND :: "32 word" where "SA_RESETHAND = 0x80000000"

definition REG_RBX :: nat where "REG_RBX = 11"
definition REG_RAX :: nat where "REG_RAX = 13"
definition REG_RIP :: nat where "REG_RIP = 16"

text \<open>
  The two verdicts of the platform-neutral handler, as the SDK's exception header declares
  them. The handler below only compares against \<open>OE_EXCEPTION_CONTINUE_EXECUTION\<close>;
  every other value counts as not handled.
\<close>

definition OE_EXCEPTION_CONTINUE_SEARCH :: "64 word" where
  "OE_EXCEPTION_CONTINUE_SEARCH = 0x0"
definition OE_EXCEPTION_CONTINUE_EXECUTION :: "64 word" where
  "OE_EXCEPTION_CONTINUE_EXECUTION = 0xFFFFFFFF"

section \<open>Data\<close>

text \<open>
  A handler reference. In C it is the union of \<open>sa_handler\<close> and \<open>sa_sigaction\<close>: the two
  sentinels \<open>SIG_DFL\<close> and \<open>SIG_IGN\<close>, the function \<open>_host_signal_handler\<close> of this file,
  or some other function, named by its address.
\<close>

datatype sighandler = SIG_DFL | SIG_IGN | Host_signal_handler | Fn nat

text \<open>\<open>struct sigaction\<close>: handler, mask (a \<open>sigset_t\<close>) and flags (a C \<open>int\<close>).\<close>

record sigaction =
  sa_handler :: sighandler
  sa_mask :: "int set"
  sa_flags :: "32 word"

text \<open>The parts of \<open>siginfo_t\<close> and \<open>ucontext_t\<close> the handler reads.\<close>

record siginfo =
  si_addr :: "64 word"

record ucontext =
  gregs :: "nat \<Rightarrow> 64 word"

text \<open>\<open>oe_host_exception_context_t\<close>, zero-initialised by \<open>= {0}\<close>.\<close>

record host_context =
  rax :: "64 word"
  rbx :: "64 word"
  rip :: "64 word"
  signal_number :: "64 word"
  faulting_address :: "64 word"

text \<open>
  What the operating system keeps for the process: the live disposition of every signal,
  the signal mask of the running thread, and the signals that are raised but blocked.
\<close>

record os_state =
  sigactions :: "int \<Rightarrow> sigaction"
  sigmask :: "int set"
  pending :: "int set"

text \<open>How the system resolves a raised signal: left pending, or dispatched to a disposition.\<close>

datatype raise_outcome = Pending | Dispatched sighandler

text \<open>The two calling conventions of a previous handler.\<close>

datatype handler_call =
  Simple_call sighandler int
| Siginfo_call sighandler int siginfo ucontext

text \<open>The calls the handler makes out of this file, in order.\<close>

datatype event =
  Ev_submit host_context
| Ev_signal int sighandler
| Ev_raise int raise_outcome
| Ev_call handler_call

text \<open>
  The state of the host: the file-static array \<open>g_previous_sigaction\<close> (indexed by signal
  number; the system only enters the handler with \<open>0 < sig_num < _NSIG\<close>), the system's
  state, and the log of outgoing calls. A previous handler is foreign code: it can change
  the system's state, but it cannot name the static array.
\<close>

record host_state =
  g_previous_sigaction :: "int \<Rightarrow> sigaction"
  os :: os_state
  events :: "event list"

datatype abort = Aborted

section \<open>System calls\<close>

definition valid_signal :: "int \<Rightarrow> bool" where
  "valid_signal n = (0 < n \<and> n < NSIG \<and> n \<noteq> SIGKILL \<and> n \<noteq> SIGSTOP)"

text \<open>
  \<open>signal(sig, h)\<close>: installs \<open>h\<close> with the restarting, self-blocking registration of the
  C library; an invalid signal number changes nothing (the handler ignores the result).
\<close>

definition os_signal :: "int \<Rightarrow> sighandler \<Rightarrow> os_state \<Rightarrow> os_state" where
  "os_signal n h s =
     (if valid_signal n
      then s\<lparr>sigactions := (sigactions s)
             (n := \<lparr>sa_handler = h, sa_mask = {n}, sa_flags = SA_RESTART\<rparr>)\<rparr>
      else s)"

text \<open>
  \<open>raise(sig)\<close>: a blocked signal stays pending; otherwise the system acts on the live
  disposition of the signal at that moment.
\<close>

definition os_raise :: "int \<Rightarrow> os_state \<Rightarrow> os_state \<times> raise_outcome" where
  "os_raise n s =
     (if n \<in> sigmask s then (s\<lparr>pending := insert n (pending s)\<rparr>, Pending)
      else (s, Dispatched (sa_handler (sigactions s n))))"

text \<open>\<open>pthread_sigmask(SIG_SETMASK, set, old)\<close>: returns the old mask and installs \<open>set\<close>.\<close>

definition pthread_sigmask_set :: "int set \<Rightarrow> os_state \<Rightarrow> int set \<times> os_state" where
  "pthread_sigmask_set m s = (sigmask s, s\<lparr>sigmask := m\<rparr>)"

text \<open>
  \<open>sigprocmask(SIG_SETMASK, NULL, old)\<close>: a query; \<open>ok\<close> says whether the call succeeds.
\<close>

definition sigprocmask_query :: "bool \<Rightarrow> os_state \<Rightarrow> int set option" where
  "sigprocmask_query ok s = (if ok then Some (sigmask s) else None)"

text \<open>
  \<open>sigaction(sig, act, old)\<close>: on success returns the previous disposition and installs
  \<open>act\<close>; \<open>ok sig\<close> says whether the call succeeds for this signal.
\<close>

definition os_sigaction ::
  "(int \<Rightarrow> bool) \<Rightarrow> int \<Rightarrow> sigaction \<Rightarrow> os_state \<Rightarrow> (sigaction \<times> os_state) option" where
  "os_sigaction ok n act s =
     (if ok n then Some (sigactions s n, s\<lparr>sigactions := (sigactions s)(n := act)\<rparr>)
      else None)"

section \<open>The signal catalog\<close>

definition default_signals :: "int list" where
  "default_signals = [SIGBUS, SIGFPE, SIGILL, SIGSEGV, SIGTRAP]"

definition optional_signals :: "int list" where
  "optional_signals = [SIGHUP, SIGABRT, SIGALRM, SIGPIPE, SIGPOLL, SIGUSR1, SIGUSR2]"

section \<open>The signal handler\<close>

text \<open>
  The first loop of \<open>_host_signal_handler\<close>: the reported number becomes 0 at the first
  default signal that equals \<open>sig_num\<close> and is not \<open>SIGSEGV\<close>.
\<close>

fun hide_default :: "int \<Rightarrow> int list \<Rightarrow> 64 word \<Rightarrow> 64 word" where
  "hide_default sig_num [] n = n"
| "hide_default sig_num (d # ds) n =
     (if sig_num = d \<and> sig_num \<noteq> SIGSEGV then 0 else hide_default sig_num ds n)"

text \<open>The context the handler builds; \<open>(uint64_t)sig_num\<close> is \<open>word_of_int\<close>.\<close>

definition build_host_context :: "int \<Rightarrow> siginfo \<Rightarrow> ucontext \<Rightarrow> host_context" where
  "build_host_context sig_num sig_info sig_data =
     \<lparr>rax = gregs sig_data REG_RAX,
      rbx = gregs sig_data REG_RBX,
      rip = gregs sig_data REG_RIP,
      signal_number = hide_default sig_num default_signals (word_of_int sig_num),
      faulting_address = si_addr sig_info\<rparr>"

text \<open>
  The loop of the \<open>SIG_DFL\<close> branch: \<open>True\<close> when the handler returns from inside it, at
  an optional signal that equals \<open>sig_num\<close> and is not \<open>SIGABRT\<close>.
\<close>

fun bypass_optional :: "int \<Rightarrow> int list \<Rightarrow> bool" where
  "bypass_optional sig_num [] = False"
| "bypass_optional sig_num (x # xs) =
     (if sig_num = x \<and> sig_num \<noteq> SIGABRT then True else bypass_optional sig_num xs)"

text \<open>The end of the \<open>SIG_DFL\<close> branch: \<open>signal(sig_num, SIG_DFL); raise(sig_num);\<close>.\<close>

definition reraise_default :: "int \<Rightarrow> host_state \<Rightarrow> host_state" where
  "reraise_default sig_num st =
     (let s1 = os_signal sig_num SIG_DFL (os st);
          (s2, out) = os_raise sig_num s1
      in st\<lparr>os := s2,
            events := events st @ [Ev_signal sig_num SIG_DFL, Ev_raise sig_num out]\<rparr>)"

text \<open>
  The last branch: the signal goes to the saved handler. \<open>invoke\<close> is the effect of
  running a foreign handler on the system's state.
\<close>

definition chain_previous ::
  "(handler_call \<Rightarrow> os_state \<Rightarrow> os_state) \<Rightarrow> int \<Rightarrow> siginfo \<Rightarrow> ucontext \<Rightarrow>
   host_state \<Rightarrow> host_state" where
  "chain_previous invoke sig_num sig_info sig_data st =
     (let g = g_previous_sigaction st;
          g1 = (if sa_flags (g sig_num) AND SA_NODEFER = 0
                then g(sig_num := (g sig_num)\<lparr>sa_mask := insert sig_num (sa_mask (g sig_num))\<rparr>)
                else g);
          (current_set, s1) = pthread_sigmask_set (sa_mask (g1 sig_num)) (os st);
          c = (if sa_flags (g1 sig_num) AND SA_SIGINFO \<noteq> 0
               then Siginfo_call (sa_handler (g1 sig_num)) sig_num sig_info sig_data
               else Simple_call (sa_handler (g1 sig_num)) sig_num);
          s2 = invoke c s1;
          (_, s3) = pthread_sigmask_set current_set s2;
          g2 = (if sa_flags (g1 sig_num) AND SA_RESETHAND \<noteq> 0
                then g1(sig_num := (g1 sig_num)\<lparr>sa_handler := SIG_DFL\<rparr>)
                else g1)
      in st\<lparr>g_previous_sigaction := g2, os := s3, events := events st @ [Ev_call c]\<rparr>)"

text \<open>
  \<open>_host_signal_handler\<close>. \<open>oe_host_handle_exception\<close> is the platform-neutral handler,
  which returns the action for the context it is given.
\<close>

definition host_signal_handler ::
  "(host_context \<Rightarrow> 64 word) \<Rightarrow> (handler_call \<Rightarrow> os_state \<Rightarrow> os_state) \<Rightarrow>
   int \<Rightarrow> siginfo \<Rightarrow> ucontext \<Rightarrow> host_state \<Rightarrow> host_state" where
  "host_signal_handler oe_host_handle_exception invoke sig_num sig_info sig_data st =
     (let host_context = build_host_context sig_num sig_info sig_data;
          action = oe_host_handle_exception host_context;
          st1 = st\<lparr>events := events st @ [Ev_submit host_context]\<rparr>
      in if action = OE_EXCEPTION_CONTINUE_EXECUTION then st1
         else if sa_handler (g_previous_sigaction st1 sig_num) = SIG_DFL then
           (if bypass_optional sig_num optional_signals then st1
            else reraise_default sig_num st1)
         else chain_previous invoke sig_num sig_info sig_data st1)"

section \<open>Installation\<close>

text \<open>
  One registration loop of \<open>_register_signal_handlers\<close>: each round removes the signal
  from the mask of the one \<open>sig_action\<close> the routine keeps, then registers it and stores
  the previous disposition; a failed registration aborts.
\<close>

fun install_loop ::
  "(int \<Rightarrow> bool) \<Rightarrow> int list \<Rightarrow> sigaction \<Rightarrow> host_state \<Rightarrow> abort + (sigaction \<times> host_state)" where
  "install_loop ok [] sig_action st = Inr (sig_action, st)"
| "install_loop ok (signum # rest) sig_action st =
     (let sig_action1 = sig_action\<lparr>sa_mask := sa_mask sig_action - {signum}\<rparr>
      in case os_sigaction ok signum sig_action1 (os st) of
           None \<Rightarrow> Inl Aborted
         | Some (old, s1) \<Rightarrow>
             install_loop ok rest sig_action1
               (st\<lparr>g_previous_sigaction := (g_previous_sigaction st)(signum := old),
                   os := s1\<rparr>))"

definition register_signal_handlers ::
  "bool \<Rightarrow> (int \<Rightarrow> bool) \<Rightarrow> host_state \<Rightarrow> abort + host_state" where
  "register_signal_handlers mask_ok ok st =
     (let sig_action = \<lparr>sa_handler = Host_signal_handler, sa_mask = {},
                        sa_flags = SA_SIGINFO OR SA_NODEFER OR SA_RESTART\<rparr>
      in case sigprocmask_query mask_ok (os st) of
           None \<Rightarrow> Inl Aborted
         | Some m \<Rightarrow>
             (case install_loop ok default_signals (sig_action\<lparr>sa_mask := m\<rparr>) st of
                Inl e \<Rightarrow> Inl e
              | Inr (sig_action1, st1) \<Rightarrow>
                  (case install_loop ok optional_signals sig_action1 st1 of
                     Inl e \<Rightarrow> Inl e
                   | Inr (_, st2) \<Rightarrow> Inr st2)))"

definition oe_initialize_host_exception ::
  "bool \<Rightarrow> (int \<Rightarrow> bool) \<Rightarrow> host_state \<Rightarrow> abort + host_state" where
  "oe_initialize_host_exception mask_ok ok st = register_signal_handlers mask_ok ok st"

section \<open>Observations and sample inputs\<close>


text \<open>The mask registered for a signal once installation has returned.\<close>

definition registered_mask :: "int \<Rightarrow> abort + host_state \<Rightarrow> int set option" where
  "registered_mask n r =
     (case r of Inl e \<Rightarrow> None | Inr st \<Rightarrow> Some (sa_mask (sigactions (os st) n)))"

definition example_info :: siginfo where
  "example_info = \<lparr>si_addr = 0x7F0000001000\<rparr>"

definition example_context :: ucontext where
  "example_context = \<lparr>gregs = (\<lambda>r. 0)\<rparr>"

text \<open>Two runtimes: one that never handles the exception, one that always does.\<close>

definition declines :: "host_context \<Rightarrow> 64 word" where
  "declines c = OE_EXCEPTION_CONTINUE_SEARCH"

definition resolves :: "host_context \<Rightarrow> 64 word" where
  "resolves c = OE_EXCEPTION_CONTINUE_EXECUTION"

text \<open>Two previous handlers: one that does nothing, one that blocks \<open>SIGHUP\<close>.\<close>

definition returns_at_once :: "handler_call \<Rightarrow> os_state \<Rightarrow> os_state" where
  "returns_at_once c s = s"

definition blocks_hangup :: "handler_call \<Rightarrow> os_state \<Rightarrow> os_state" where
  "blocks_hangup c s = s\<lparr>sigmask := insert SIGHUP (sigmask s)\<rparr>"

text \<open>Two systems: one where every registration succeeds, one where it fails for \<open>k\<close>.\<close>

definition all_ok :: "int \<Rightarrow> bool" where
  "all_ok n = True"

definition fails_at :: "int \<Rightarrow> int \<Rightarrow> bool" where
  "fails_at k n = (n \<noteq> k)"

definition no_previous :: "int \<Rightarrow> sigaction" where
  "no_previous n = \<lparr>sa_handler = SIG_DFL, sa_mask = {}, sa_flags = 0\<rparr>"

definition host_action :: sigaction where
  "host_action = \<lparr>sa_handler = Host_signal_handler, sa_mask = {},
                  sa_flags = SA_SIGINFO OR SA_NODEFER OR SA_RESTART\<rparr>"

definition armed :: "int \<Rightarrow> sigaction" where
  "armed n = (if n \<in> set (default_signals @ optional_signals) then host_action
              else no_previous n)"

definition armed_os :: os_state where
  "armed_os = \<lparr>sigactions = armed, sigmask = {}, pending = {}\<rparr>"

text \<open>A process before installation, with nothing blocked and with \<open>SIGSEGV\<close> blocked.\<close>

definition fresh_state :: host_state where
  "fresh_state =
     \<lparr>g_previous_sigaction = no_previous,
      os = \<lparr>sigactions = no_previous, sigmask = {}, pending = {}\<rparr>,
      events = []\<rparr>"

definition blocked_segv_state :: host_state where
  "blocked_segv_state =
     \<lparr>g_previous_sigaction = no_previous,
      os = \<lparr>sigactions = no_previous, sigmask = {SIGSEGV}, pending = {}\<rparr>,
      events = []\<rparr>"

text \<open>
  Processes after installation: no previous handlers; a one-shot previous handler for
  \<open>SIGUSR1\<close>; \<open>SIGUSR1\<close> previously ignored, registered without and with \<open>SA_SIGINFO\<close>.
\<close>

definition idle_state :: host_state where
  "idle_state = \<lparr>g_previous_sigaction = no_previous, os = armed_os, events = []\<rparr>"

definition oneshot_state :: host_state where
  "oneshot_state =
     \<lparr>g_previous_sigaction =
        no_previous(SIGUSR1 := \<lparr>sa_handler = Fn 1, sa_mask = {}, sa_flags = SA_RESETHAND\<rparr>),
      os = armed_os, events = []\<rparr>"

definition ignoring_state :: host_state where
  "ignoring_state =
     \<lparr>g_previous_sigaction =
        no_previous(SIGUSR1 := \<lparr>sa_handler = SIG_IGN, sa_mask = {}, sa_flags = 0\<rparr>),
      os = armed_os, events = []\<rparr>"

definition ignoring_siginfo_state :: host_state where
  "ignoring_siginfo_state =
     \<lparr>g_previous_sigaction =
        no_previous(SIGUSR1 := \<lparr>sa_handler = SIG_IGN, sa_mask = {}, sa_flags = SA_SIGINFO\<rparr>),
      os = armed_os, events = []\<rparr>"

section \<open>The catalog and the two loops of the handler\<close>

lemmas signal_defs =
  SIGHUP_def SIGILL_def SIGTRAP_def SIGABRT_def SIGBUS_def SIGFPE_def SIGKILL_def
  SIGUSR1_def SIGSEGV_def SIGUSR2_def SIGPIPE_def SIGALRM_def SIGSTOP_def SIGPOLL_def
  NSIG_def

lemmas flag_defs = SA_SIGINFO_def SA_RESTART_def SA_NODEFER_def SA_RESETHAND_def

lemmas example_defs =
  example_info_def example_context_def declines_def resolves_def returns_at_once_def
  blocks_hangup_def no_previous_def host_action_def armed_def armed_os_def idle_state_def
  oneshot_state_def ignoring_state_def ignoring_siginfo_state_def
  OE_EXCEPTION_CONTINUE_SEARCH_def OE_EXCEPTION_CONTINUE_EXECUTION_def

lemma hide_default_eq:
  "hide_default sig_num ds n = (if sig_num \<in> set ds \<and> sig_num \<noteq> SIGSEGV then 0 else n)"
  by (induction ds) auto

lemma bypass_optional_eq:
  "bypass_optional sig_num xs = (sig_num \<in> set xs \<and> sig_num \<noteq> SIGABRT)"
  by (induction xs) auto

lemma catalog_disjoint: "set default_signals \<inter> set optional_signals = {}"
  by (simp add: default_signals_def optional_signals_def signal_defs)

lemma catalog_distinct: "distinct (default_signals @ optional_signals)"
  by (simp add: default_signals_def optional_signals_def signal_defs)

lemma SIGABRT_optional: "SIGABRT \<in> set optional_signals"
  by (simp add: optional_signals_def)

lemma valid_catalog_signal:
  "sig_num \<in> set default_signals \<or> sig_num \<in> set optional_signals \<Longrightarrow> valid_signal sig_num"
  by (auto simp: default_signals_def optional_signals_def valid_signal_def signal_defs)

lemma uint_signal_word:
  "sig_num = SIGSEGV \<or> sig_num \<in> set optional_signals \<Longrightarrow>
   uint (word_of_int sig_num :: 64 word) = sig_num"
  by (auto simp: optional_signals_def signal_defs)

section \<open>The branches of the handler\<close>

lemma handler_continue:
  "oe (build_host_context sig_num sig_info sig_data) = OE_EXCEPTION_CONTINUE_EXECUTION \<Longrightarrow>
   host_signal_handler oe invoke sig_num sig_info sig_data st =
     st\<lparr>events := events st @ [Ev_submit (build_host_context sig_num sig_info sig_data)]\<rparr>"
  by (simp add: host_signal_handler_def Let_def)

lemma handler_bypass:
  "oe (build_host_context sig_num sig_info sig_data) \<noteq> OE_EXCEPTION_CONTINUE_EXECUTION \<Longrightarrow>
   sa_handler (g_previous_sigaction st sig_num) = SIG_DFL \<Longrightarrow>
   sig_num \<in> set optional_signals \<Longrightarrow> sig_num \<noteq> SIGABRT \<Longrightarrow>
   host_signal_handler oe invoke sig_num sig_info sig_data st =
     st\<lparr>events := events st @ [Ev_submit (build_host_context sig_num sig_info sig_data)]\<rparr>"
  by (simp add: host_signal_handler_def Let_def bypass_optional_eq)

lemma handler_reraise:
  "oe (build_host_context sig_num sig_info sig_data) \<noteq> OE_EXCEPTION_CONTINUE_EXECUTION \<Longrightarrow>
   sa_handler (g_previous_sigaction st sig_num) = SIG_DFL \<Longrightarrow>
   sig_num \<notin> set optional_signals \<or> sig_num = SIGABRT \<Longrightarrow>
   host_signal_handler oe invoke sig_num sig_info sig_data st =
     reraise_default sig_num
       (st\<lparr>events := events st @ [Ev_submit (build_host_context sig_num sig_info sig_data)]\<rparr>)"
  by (auto simp add: host_signal_handler_def Let_def bypass_optional_eq)

lemma handler_chain:
  "oe (build_host_context sig_num sig_info sig_data) \<noteq> OE_EXCEPTION_CONTINUE_EXECUTION \<Longrightarrow>
   sa_handler (g_previous_sigaction st sig_num) \<noteq> SIG_DFL \<Longrightarrow>
   host_signal_handler oe invoke sig_num sig_info sig_data st =
     chain_previous invoke sig_num sig_info sig_data
       (st\<lparr>events := events st @ [Ev_submit (build_host_context sig_num sig_info sig_data)]\<rparr>)"
  by (simp add: host_signal_handler_def Let_def)

section \<open>What the runtime is told\<close>

text \<open>
  Claim C1. The first thing the handler does with a delivered signal is to submit the
  context it has built to the runtime. In that context the signal number is 0 when the
  signal is a default (mandatory) signal other than \<open>SIGSEGV\<close>, and it is the number of
  the signal itself when the signal is \<open>SIGSEGV\<close> or an optional signal.
\<close>

theorem reported_signal_number:
  "(\<exists>rest. events (host_signal_handler oe invoke sig_num sig_info sig_data st) =
       events st @ Ev_submit (build_host_context sig_num sig_info sig_data) # rest) \<and>
   (sig_num \<in> set default_signals \<and> sig_num \<noteq> SIGSEGV \<longrightarrow>
      signal_number (build_host_context sig_num sig_info sig_data) = 0) \<and>
   (sig_num = SIGSEGV \<or> sig_num \<in> set optional_signals \<longrightarrow>
      uint (signal_number (build_host_context sig_num sig_info sig_data)) = sig_num)"
proof (intro conjI impI)
  show "\<exists>rest. events (host_signal_handler oe invoke sig_num sig_info sig_data st) =
       events st @ Ev_submit (build_host_context sig_num sig_info sig_data) # rest"
    by (simp add: host_signal_handler_def reraise_default_def chain_previous_def Let_def
        split: prod.splits)
next
  assume "sig_num \<in> set default_signals \<and> sig_num \<noteq> SIGSEGV"
  then show "signal_number (build_host_context sig_num sig_info sig_data) = 0"
    by (simp add: build_host_context_def hide_default_eq)
next
  assume a: "sig_num = SIGSEGV \<or> sig_num \<in> set optional_signals"
  have "sig_num \<notin> set default_signals \<or> sig_num = SIGSEGV"
    using a catalog_disjoint by auto
  then have "signal_number (build_host_context sig_num sig_info sig_data) = word_of_int sig_num"
    by (auto simp: build_host_context_def hide_default_eq)
  then show "uint (signal_number (build_host_context sig_num sig_info sig_data)) = sig_num"
    using uint_signal_word [OF a] by simp
qed

theorem reported_signal_number_witness:
  "signal_number (build_host_context SIGFPE example_info example_context) = 0 \<and>
   uint (signal_number (build_host_context SIGSEGV example_info example_context)) = 11 \<and>
   uint (signal_number (build_host_context SIGUSR1 example_info example_context)) = 10"
  using reported_signal_number [where sig_num = SIGFPE and sig_info = example_info
      and sig_data = example_context and oe = declines and invoke = returns_at_once
      and st = idle_state]
    reported_signal_number [where sig_num = SIGSEGV and sig_info = example_info
      and sig_data = example_context and oe = declines and invoke = returns_at_once
      and st = idle_state]
    reported_signal_number [where sig_num = SIGUSR1 and sig_info = example_info
      and sig_data = example_context and oe = declines and invoke = returns_at_once
      and st = idle_state]
  by (simp add: default_signals_def optional_signals_def signal_defs)

section \<open>The runtime handles the exception\<close>

text \<open>
  Claim C9. When the runtime answers \<open>OE_EXCEPTION_CONTINUE_EXECUTION\<close>, the handler
  returns at once: the saved dispositions are unchanged, and so is the whole state of the
  system (live dispositions, signal mask, pending signals). Its only outgoing call is the
  submission of the context.
\<close>

theorem continue_leaves_state:
  assumes "oe (build_host_context sig_num sig_info sig_data) = OE_EXCEPTION_CONTINUE_EXECUTION"
  shows "g_previous_sigaction (host_signal_handler oe invoke sig_num sig_info sig_data st) =
           g_previous_sigaction st \<and>
         os (host_signal_handler oe invoke sig_num sig_info sig_data st) = os st \<and>
         events (host_signal_handler oe invoke sig_num sig_info sig_data st) =
           events st @ [Ev_submit (build_host_context sig_num sig_info sig_data)]"
  using assms by (simp add: handler_continue)

theorem continue_leaves_state_witness:
  "resolves (build_host_context SIGSEGV example_info example_context) =
     OE_EXCEPTION_CONTINUE_EXECUTION \<and>
   os (host_signal_handler resolves returns_at_once SIGSEGV example_info example_context
         oneshot_state) = os oneshot_state \<and>
   g_previous_sigaction (host_signal_handler resolves returns_at_once SIGSEGV example_info
         example_context oneshot_state) = g_previous_sigaction oneshot_state"
  using continue_leaves_state [where oe = resolves and sig_num = SIGSEGV
      and sig_info = example_info and sig_data = example_context
      and invoke = returns_at_once and st = oneshot_state]
  by (simp add: resolves_def)

section \<open>No previous handler\<close>

text \<open>
  Claim C5. When the runtime does not handle the exception, the saved handler of the
  signal is \<open>SIG_DFL\<close>, and the signal is an optional signal other than \<open>SIGABRT\<close>, the
  handler returns without acting: the saved dispositions and the state of the system
  (live dispositions, mask, pending signals) are unchanged, and it makes no call besides
  the submission of the context; in particular it does not raise the signal.
\<close>

theorem optional_bypass_no_effect:
  assumes "oe (build_host_context sig_num sig_info sig_data) \<noteq> OE_EXCEPTION_CONTINUE_EXECUTION"
    and "sa_handler (g_previous_sigaction st sig_num) = SIG_DFL"
    and "sig_num \<in> set optional_signals" and "sig_num \<noteq> SIGABRT"
  shows "g_previous_sigaction (host_signal_handler oe invoke sig_num sig_info sig_data st) =
           g_previous_sigaction st \<and>
         os (host_signal_handler oe invoke sig_num sig_info sig_data st) = os st \<and>
         events (host_signal_handler oe invoke sig_num sig_info sig_data st) =
           events st @ [Ev_submit (build_host_context sig_num sig_info sig_data)]"
  using assms by (simp add: handler_bypass)

theorem optional_bypass_no_effect_witness:
  "declines (build_host_context SIGUSR1 example_info example_context) \<noteq>
     OE_EXCEPTION_CONTINUE_EXECUTION \<and>
   sa_handler (g_previous_sigaction idle_state SIGUSR1) = SIG_DFL \<and>
   SIGUSR1 \<in> set optional_signals \<and> SIGUSR1 \<noteq> SIGABRT \<and>
   os (host_signal_handler declines returns_at_once SIGUSR1 example_info example_context
         idle_state) = os idle_state"
  using optional_bypass_no_effect [where oe = declines and sig_num = SIGUSR1
      and sig_info = example_info and sig_data = example_context
      and invoke = returns_at_once and st = idle_state]
  by (simp add: example_defs optional_signals_def signal_defs)

text \<open>
  Claim C6. When the runtime does not handle the exception, the saved handler of the
  signal is \<open>SIG_DFL\<close>, and the signal is a default (mandatory) signal or \<open>SIGABRT\<close>, the
  handler sets the live disposition of exactly that signal to \<open>SIG_DFL\<close> and raises the
  signal once. The system resolves the raised signal against \<open>SIG_DFL\<close>, never against
  \<open>_host_signal_handler\<close>: with the signal unblocked, as it is inside the handler, the
  outgoing calls are the submission, the reset and one raise dispatched to \<open>SIG_DFL\<close>;
  were it blocked, it would wait in the pending set with \<open>SIG_DFL\<close> as its disposition.
  Saved dispositions and the mask are unchanged.
\<close>

theorem reraise_default_once:
  assumes "oe (build_host_context sig_num sig_info sig_data) \<noteq> OE_EXCEPTION_CONTINUE_EXECUTION"
    and "sa_handler (g_previous_sigaction st sig_num) = SIG_DFL"
    and "sig_num \<in> set default_signals \<or> sig_num = SIGABRT"
  shows "g_previous_sigaction (host_signal_handler oe invoke sig_num sig_info sig_data st) =
           g_previous_sigaction st \<and>
         sigactions (os (host_signal_handler oe invoke sig_num sig_info sig_data st)) =
           (sigactions (os st))
             (sig_num := \<lparr>sa_handler = SIG_DFL, sa_mask = {sig_num}, sa_flags = SA_RESTART\<rparr>) \<and>
         sigmask (os (host_signal_handler oe invoke sig_num sig_info sig_data st)) =
           sigmask (os st) \<and>
         (sig_num \<notin> sigmask (os st) \<longrightarrow>
            pending (os (host_signal_handler oe invoke sig_num sig_info sig_data st)) =
              pending (os st) \<and>
            events (host_signal_handler oe invoke sig_num sig_info sig_data st) =
              events st @ [Ev_submit (build_host_context sig_num sig_info sig_data),
                           Ev_signal sig_num SIG_DFL,
                           Ev_raise sig_num (Dispatched SIG_DFL)]) \<and>
         (sig_num \<in> sigmask (os st) \<longrightarrow>
            pending (os (host_signal_handler oe invoke sig_num sig_info sig_data st)) =
              insert sig_num (pending (os st)) \<and>
            events (host_signal_handler oe invoke sig_num sig_info sig_data st) =
              events st @ [Ev_submit (build_host_context sig_num sig_info sig_data),
                           Ev_signal sig_num SIG_DFL,
                           Ev_raise sig_num Pending])"
proof -
  have v: "valid_signal sig_num"
    using assms(3) valid_catalog_signal SIGABRT_optional by blast
  have "sig_num \<notin> set optional_signals \<or> sig_num = SIGABRT"
    using assms(3) catalog_disjoint by auto
  then have "host_signal_handler oe invoke sig_num sig_info sig_data st =
     reraise_default sig_num
       (st\<lparr>events := events st @ [Ev_submit (build_host_context sig_num sig_info sig_data)]\<rparr>)"
    using assms(1,2) by (simp add: handler_reraise)
  then show ?thesis
    using v by (simp add: reraise_default_def os_signal_def os_raise_def Let_def)
qed

theorem reraise_default_once_witness:
  "declines (build_host_context SIGSEGV example_info example_context) \<noteq>
     OE_EXCEPTION_CONTINUE_EXECUTION \<and>
   sa_handler (g_previous_sigaction idle_state SIGSEGV) = SIG_DFL \<and>
   SIGSEGV \<in> set default_signals \<and> SIGSEGV \<notin> sigmask (os idle_state) \<and>
   sa_handler (sigactions (os idle_state) SIGSEGV) = Host_signal_handler \<and>
   sa_handler (sigactions (os (host_signal_handler declines returns_at_once SIGSEGV
      example_info example_context idle_state)) SIGSEGV) = SIG_DFL \<and>
   events (host_signal_handler declines returns_at_once SIGSEGV example_info example_context
      idle_state) =
     [Ev_submit (build_host_context SIGSEGV example_info example_context),
      Ev_signal SIGSEGV SIG_DFL, Ev_raise SIGSEGV (Dispatched SIG_DFL)]"
  using reraise_default_once [where oe = declines and sig_num = SIGSEGV
      and sig_info = example_info and sig_data = example_context
      and invoke = returns_at_once and st = idle_state]
  by (simp add: example_defs default_signals_def optional_signals_def signal_defs)

section \<open>Chaining to the previous handler\<close>

lemma chain_previous_registry:
  "g_previous_sigaction (chain_previous invoke sig_num sig_info sig_data st) =
     (g_previous_sigaction st)
       (sig_num := \<lparr>sa_handler =
                      (if sa_flags (g_previous_sigaction st sig_num) AND SA_RESETHAND \<noteq> 0
                       then SIG_DFL else sa_handler (g_previous_sigaction st sig_num)),
                    sa_mask =
                      (if sa_flags (g_previous_sigaction st sig_num) AND SA_NODEFER = 0
                       then insert sig_num (sa_mask (g_previous_sigaction st sig_num))
                       else sa_mask (g_previous_sigaction st sig_num)),
                    sa_flags = sa_flags (g_previous_sigaction st sig_num)\<rparr>)"
  by (auto simp: chain_previous_def pthread_sigmask_set_def Let_def fun_eq_iff)

lemma chain_previous_os:
  "os (chain_previous invoke sig_num sig_info sig_data st) =
     (invoke
        (if sa_flags (g_previous_sigaction st sig_num) AND SA_SIGINFO \<noteq> 0
         then Siginfo_call (sa_handler (g_previous_sigaction st sig_num)) sig_num sig_info sig_data
         else Simple_call (sa_handler (g_previous_sigaction st sig_num)) sig_num)
        ((os st)\<lparr>sigmask :=
           (if sa_flags (g_previous_sigaction st sig_num) AND SA_NODEFER = 0
            then insert sig_num (sa_mask (g_previous_sigaction st sig_num))
            else sa_mask (g_previous_sigaction st sig_num))\<rparr>))
     \<lparr>sigmask := sigmask (os st)\<rparr>"
  by (simp add: chain_previous_def pthread_sigmask_set_def Let_def)


lemma handler_registry:
  "g_previous_sigaction (host_signal_handler oe invoke sig_num sig_info sig_data st) =
     (if oe (build_host_context sig_num sig_info sig_data) \<noteq> OE_EXCEPTION_CONTINUE_EXECUTION \<and>
         sa_handler (g_previous_sigaction st sig_num) \<noteq> SIG_DFL
      then g_previous_sigaction
             (chain_previous invoke sig_num sig_info sig_data
               (st\<lparr>events := events st @
                  [Ev_submit (build_host_context sig_num sig_info sig_data)]\<rparr>))
      else g_previous_sigaction st)"
  by (simp add: host_signal_handler_def reraise_default_def Let_def split: prod.splits)

text \<open>
  Claim C7. In every chained invocation the previous handler runs under the saved mask
  (with the signal itself added unless the saved flags carry \<open>SA_NODEFER\<close>), in the
  calling convention its saved flags select, and whatever it does to the mask, the mask
  after it has returned is the mask the process had before the swap.
\<close>

theorem chain_mask_round_trip:
  assumes "oe (build_host_context sig_num sig_info sig_data) \<noteq> OE_EXCEPTION_CONTINUE_EXECUTION"
    and "sa_handler (g_previous_sigaction st sig_num) \<noteq> SIG_DFL"
  shows "os (host_signal_handler oe invoke sig_num sig_info sig_data st) =
           (invoke
              (if sa_flags (g_previous_sigaction st sig_num) AND SA_SIGINFO \<noteq> 0
               then Siginfo_call (sa_handler (g_previous_sigaction st sig_num))
                      sig_num sig_info sig_data
               else Simple_call (sa_handler (g_previous_sigaction st sig_num)) sig_num)
              ((os st)\<lparr>sigmask :=
                 (if sa_flags (g_previous_sigaction st sig_num) AND SA_NODEFER = 0
                  then insert sig_num (sa_mask (g_previous_sigaction st sig_num))
                  else sa_mask (g_previous_sigaction st sig_num))\<rparr>))
           \<lparr>sigmask := sigmask (os st)\<rparr> \<and>
         sigmask (os (host_signal_handler oe invoke sig_num sig_info sig_data st)) =
           sigmask (os st)"
  using assms by (simp add: handler_chain chain_previous_os)

theorem chain_mask_round_trip_witness:
  "declines (build_host_context SIGUSR1 example_info example_context) \<noteq>
     OE_EXCEPTION_CONTINUE_EXECUTION \<and>
   sa_handler (g_previous_sigaction oneshot_state SIGUSR1) \<noteq> SIG_DFL \<and>
   sigmask (blocks_hangup (Simple_call (Fn 1) SIGUSR1)
      ((os oneshot_state)\<lparr>sigmask := {SIGUSR1}\<rparr>)) = {SIGHUP, SIGUSR1} \<and>
   sigmask (os (host_signal_handler declines blocks_hangup SIGUSR1 example_info
      example_context oneshot_state)) = {}"
  using chain_mask_round_trip [where oe = declines and sig_num = SIGUSR1
      and sig_info = example_info and sig_data = example_context
      and invoke = blocks_hangup and st = oneshot_state]
  by (simp add: example_defs)

text \<open>
  Claim C10, as the code has it. The decision only asks whether the saved handler is
  \<open>SIG_DFL\<close>, so a saved \<open>SIG_IGN\<close> takes the chaining branch when the runtime does not
  handle the exception: the handler calls the sentinel as a function, in the simple form
  when the saved flags lack \<open>SA_SIGINFO\<close> and in the extended form when they carry it.
  The signal is not swallowed.
\<close>

theorem ignore_sentinel_invoked:
  assumes "oe (build_host_context sig_num sig_info sig_data) \<noteq> OE_EXCEPTION_CONTINUE_EXECUTION"
    and "sa_handler (g_previous_sigaction st sig_num) = SIG_IGN"
  shows "events (host_signal_handler oe invoke sig_num sig_info sig_data st) =
           events st @
             [Ev_submit (build_host_context sig_num sig_info sig_data),
              Ev_call (if sa_flags (g_previous_sigaction st sig_num) AND SA_SIGINFO \<noteq> 0
                       then Siginfo_call SIG_IGN sig_num sig_info sig_data
                       else Simple_call SIG_IGN sig_num)]"
  using assms by (simp add: handler_chain chain_previous_def pthread_sigmask_set_def Let_def)

theorem ignore_sentinel_invoked_witness:
  "declines (build_host_context SIGUSR1 example_info example_context) \<noteq>
     OE_EXCEPTION_CONTINUE_EXECUTION \<and>
   sa_handler (g_previous_sigaction ignoring_state SIGUSR1) = SIG_IGN \<and>
   events (host_signal_handler declines returns_at_once SIGUSR1 example_info example_context
      ignoring_state) =
     [Ev_submit (build_host_context SIGUSR1 example_info example_context),
      Ev_call (Simple_call SIG_IGN SIGUSR1)]"
  using ignore_sentinel_invoked [where oe = declines and sig_num = SIGUSR1
      and sig_info = example_info and sig_data = example_context
      and invoke = returns_at_once and st = ignoring_state]
  by (simp add: example_defs)

text \<open>
  Claim C10 as stated fails where the saved \<open>SIG_IGN\<close> disposition carries \<open>SA_SIGINFO\<close>:
  for \<open>SIGUSR1\<close>, a catalog signal, the handler makes no simple-form call of the sentinel
  (it calls it in the extended form).
\<close>

theorem ignore_siginfo_form_counterexample:
  "declines (build_host_context SIGUSR1 example_info example_context) \<noteq>
     OE_EXCEPTION_CONTINUE_EXECUTION \<and>
   sa_handler (g_previous_sigaction ignoring_siginfo_state SIGUSR1) = SIG_IGN \<and>
   SIGUSR1 \<in> set optional_signals \<and>
   Ev_call (Simple_call SIG_IGN SIGUSR1) \<notin>
     set (events (host_signal_handler declines returns_at_once SIGUSR1 example_info
            example_context ignoring_siginfo_state))"
  by (simp add: host_signal_handler_def chain_previous_def pthread_sigmask_set_def Let_def
      example_defs flag_defs optional_signals_def)




section \<open>Properties of the installation\<close>

lemma abort_eq: "((e::abort) = Aborted) = True"
  by (cases e) simp

lemma install_loop_Cons:
  "install_loop ok (n # ns) act st =
     (if ok n
      then install_loop ok ns (act\<lparr>sa_mask := sa_mask act - {n}\<rparr>)
             (st\<lparr>g_previous_sigaction := (g_previous_sigaction st)(n := sigactions (os st) n),
                 os := (os st)\<lparr>sigactions := (sigactions (os st))
                         (n := act\<lparr>sa_mask := sa_mask act - {n}\<rparr>)\<rparr>\<rparr>)
      else Inl Aborted)"
  by (simp add: os_sigaction_def Let_def)

declare install_loop.simps(2) [simp del]

lemma install_loop_abort:
  "\<exists>n\<in>set ns. \<not> ok n \<Longrightarrow> install_loop ok ns act st = Inl Aborted"
proof (induction ns arbitrary: act st)
  case Nil
  then show ?case by simp
next
  case (Cons n ns)
  show ?case
  proof (cases "ok n")
    case False
    then show ?thesis by (simp add: install_loop_Cons)
  next
    case True
    with Cons.prems have "\<exists>m\<in>set ns. \<not> ok m" by auto
    then show ?thesis using True by (simp add: install_loop_Cons Cons.IH)
  qed
qed

lemma install_loop_succeeds:
  "\<forall>n\<in>set ns. ok n \<Longrightarrow> \<exists>act' st'. install_loop ok ns act st = Inr (act', st')"
  by (induction ns arbitrary: act st) (simp_all add: install_loop_Cons)

lemma install_loop_append:
  "install_loop ok (xs @ ys) act st =
     (case install_loop ok xs act st of
        Inl e \<Rightarrow> Inl e
      | Inr (act1, st1) \<Rightarrow> install_loop ok ys act1 st1)"
  by (induction xs arbitrary: act st) (simp_all add: install_loop_Cons abort_eq)

text \<open>What one loop that has run to its end leaves behind.\<close>

lemma install_loop_action:
  "install_loop ok ns act st = Inr (act', st') \<Longrightarrow>
   act' = act\<lparr>sa_mask := sa_mask act - set ns\<rparr>"
proof (induction ns arbitrary: act st)
  case Nil
  then show ?case by simp
next
  case (Cons n ns)
  from Cons.prems have "ok n"
    by (simp add: install_loop_Cons split: if_splits)
  with Cons.prems have
    "install_loop ok ns (act\<lparr>sa_mask := sa_mask act - {n}\<rparr>)
       (st\<lparr>g_previous_sigaction := (g_previous_sigaction st)(n := sigactions (os st) n),
           os := (os st)\<lparr>sigactions := (sigactions (os st))
                   (n := act\<lparr>sa_mask := sa_mask act - {n}\<rparr>)\<rparr>\<rparr>) = Inr (act', st')"
    by (simp add: install_loop_Cons)
  from Cons.IH [OF this] have "act' = act\<lparr>sa_mask := sa_mask act - {n} - set ns\<rparr>"
    by simp
  moreover have "sa_mask act - {n} - set ns = sa_mask act - set (n # ns)"
    by auto
  ultimately show ?case by simp
qed

lemma install_loop_registry:
  "install_loop ok ns act st = Inr (act', st') \<Longrightarrow> distinct ns \<Longrightarrow>
   g_previous_sigaction st' n =
     (if n \<in> set ns then sigactions (os st) n else g_previous_sigaction st n)"
proof (induction ns arbitrary: act st)
  case Nil
  then show ?case by simp
next
  case (Cons m ns)
  from Cons.prems(1) have "ok m"
    by (simp add: install_loop_Cons split: if_splits)
  with Cons.prems(1) have
    "install_loop ok ns (act\<lparr>sa_mask := sa_mask act - {m}\<rparr>)
       (st\<lparr>g_previous_sigaction := (g_previous_sigaction st)(m := sigactions (os st) m),
           os := (os st)\<lparr>sigactions := (sigactions (os st))
                   (m := act\<lparr>sa_mask := sa_mask act - {m}\<rparr>)\<rparr>\<rparr>) = Inr (act', st')"
    by (simp add: install_loop_Cons)
  from Cons.IH [OF this] Cons.prems(2) show ?case
    by auto
qed

lemma install_loop_live:
  "install_loop ok ns act st = Inr (act', st') \<Longrightarrow>
   (n \<notin> set ns \<longrightarrow> sigactions (os st') n = sigactions (os st) n) \<and>
   (n \<in> set ns \<longrightarrow> sa_handler (sigactions (os st') n) = sa_handler act \<and>
                     sa_flags (sigactions (os st') n) = sa_flags act \<and>
                     n \<notin> sa_mask (sigactions (os st') n))"
proof (induction ns arbitrary: act st)
  case Nil
  then show ?case by simp
next
  case (Cons m ns)
  from Cons.prems(1) have "ok m"
    by (simp add: install_loop_Cons split: if_splits)
  with Cons.prems(1) have
    "install_loop ok ns (act\<lparr>sa_mask := sa_mask act - {m}\<rparr>)
       (st\<lparr>g_previous_sigaction := (g_previous_sigaction st)(m := sigactions (os st) m),
           os := (os st)\<lparr>sigactions := (sigactions (os st))
                   (m := act\<lparr>sa_mask := sa_mask act - {m}\<rparr>)\<rparr>\<rparr>) = Inr (act', st')"
    by (simp add: install_loop_Cons)
  from Cons.IH [OF this] show ?case
    by (cases "n = m"; cases "m \<in> set ns"; auto)
qed

text \<open>
  The mask a signal is registered with lacks the signals registered up to and including
  it, and no others.
\<close>

lemma install_loop_mask:
  "install_loop ok ns act st = Inr (act', st') \<Longrightarrow> distinct ns \<Longrightarrow> i < length ns \<Longrightarrow>
   sa_mask (sigactions (os st') (ns ! i)) = sa_mask act - set (take (Suc i) ns)"
proof (induction ns arbitrary: act st i)
  case Nil
  then show ?case by simp
next
  case (Cons n ns)
  from Cons.prems(1) have "ok n"
    by (simp add: install_loop_Cons split: if_splits)
  with Cons.prems(1) have step:
    "install_loop ok ns (act\<lparr>sa_mask := sa_mask act - {n}\<rparr>)
       (st\<lparr>g_previous_sigaction := (g_previous_sigaction st)(n := sigactions (os st) n),
           os := (os st)\<lparr>sigactions := (sigactions (os st))
                   (n := act\<lparr>sa_mask := sa_mask act - {n}\<rparr>)\<rparr>\<rparr>) = Inr (act', st')"
    by (simp add: install_loop_Cons)
  show ?case
  proof (cases i)
    case 0
    from Cons.prems(2) have "n \<notin> set ns" by simp
    then show ?thesis using install_loop_live [OF step, of n] 0 by simp
  next
    case (Suc j)
    with Cons.prems have "distinct ns" and "j < length ns" by simp_all
    from Cons.IH [OF step this]
    have "sa_mask (sigactions (os st') (ns ! j)) = sa_mask act - {n} - set (take (Suc j) ns)"
      by simp
    moreover have "sa_mask act - {n} - set (take (Suc j) ns) =
                   sa_mask act - set (take (Suc (Suc j)) (n # ns))"
      by auto
    ultimately show ?thesis using Suc by simp
  qed
qed

text \<open>The routine as one loop over the whole catalog.\<close>

lemma register_signal_handlers_Inr:
  assumes "register_signal_handlers mask_ok ok st = Inr st'"
  obtains act1 st1 act2 where "mask_ok"
    and "install_loop ok default_signals
           \<lparr>sa_handler = Host_signal_handler, sa_mask = sigmask (os st),
            sa_flags = SA_SIGINFO OR SA_NODEFER OR SA_RESTART\<rparr> st = Inr (act1, st1)"
    and "install_loop ok optional_signals act1 st1 = Inr (act2, st')"
  using assms
  by (auto simp: register_signal_handlers_def sigprocmask_query_def Let_def
      split: if_splits sum.splits prod.splits)

lemma register_as_loop:
  assumes "register_signal_handlers mask_ok ok st = Inr st'"
  shows "\<exists>act'. install_loop ok (default_signals @ optional_signals)
           \<lparr>sa_handler = Host_signal_handler, sa_mask = sigmask (os st),
            sa_flags = SA_SIGINFO OR SA_NODEFER OR SA_RESTART\<rparr> st = Inr (act', st')"
proof -
  from assms obtain act1 st1 act2 where
    "install_loop ok default_signals
           \<lparr>sa_handler = Host_signal_handler, sa_mask = sigmask (os st),
            sa_flags = SA_SIGINFO OR SA_NODEFER OR SA_RESTART\<rparr> st = Inr (act1, st1)"
    and "install_loop ok optional_signals act1 st1 = Inr (act2, st')"
    by (rule register_signal_handlers_Inr)
  then show ?thesis by (simp add: install_loop_append)
qed

lemma register_abort:
  assumes "\<not> mask_ok \<or> (\<exists>n\<in>set (default_signals @ optional_signals). \<not> ok n)"
  shows "register_signal_handlers mask_ok ok st = Inl Aborted"
proof (cases mask_ok)
  case False
  then show ?thesis
    by (simp add: register_signal_handlers_def sigprocmask_query_def)
next
  case True
  with assms have bad:
    "(\<exists>n\<in>set default_signals. \<not> ok n) \<or> (\<exists>n\<in>set optional_signals. \<not> ok n)"
    by auto
  show ?thesis
  proof (cases "\<exists>n\<in>set default_signals. \<not> ok n")
    case True
    then show ?thesis
      by (simp add: register_signal_handlers_def sigprocmask_query_def install_loop_abort)
  next
    case False
    with bad have "\<exists>n\<in>set optional_signals. \<not> ok n" by simp
    then show ?thesis
      by (simp add: register_signal_handlers_def sigprocmask_query_def install_loop_abort
          abort_eq split: sum.splits prod.splits)
  qed
qed

lemma register_succeeds:
  assumes "mask_ok" and "\<forall>n\<in>set (default_signals @ optional_signals). ok n"
  shows "\<exists>st'. register_signal_handlers mask_ok ok st = Inr st'"
proof -
  from assms(2) have "\<forall>n\<in>set default_signals. ok n" by simp
  then obtain act1 st1 where
    l1: "install_loop ok default_signals
           \<lparr>sa_handler = Host_signal_handler, sa_mask = sigmask (os st),
            sa_flags = SA_SIGINFO OR SA_NODEFER OR SA_RESTART\<rparr> st = Inr (act1, st1)"
    using install_loop_succeeds by blast
  from assms(2) have "\<forall>n\<in>set optional_signals. ok n" by simp
  then obtain act2 st2 where l2: "install_loop ok optional_signals act1 st1 = Inr (act2, st2)"
    using install_loop_succeeds by blast
  from assms(1) l1 l2 have "register_signal_handlers mask_ok ok st = Inr st2"
    by (simp add: register_signal_handlers_def sigprocmask_query_def)
  then show ?thesis ..
qed

lemma register_installed:
  assumes r: "register_signal_handlers mask_ok ok st = Inr st'"
    and n: "n \<in> set (default_signals @ optional_signals)"
  shows "sa_handler (sigactions (os st') n) = Host_signal_handler \<and>
         sa_flags (sigactions (os st') n) = SA_SIGINFO OR SA_NODEFER OR SA_RESTART \<and>
         n \<notin> sa_mask (sigactions (os st') n)"
proof -
  from register_as_loop [OF r] obtain act' where
    "install_loop ok (default_signals @ optional_signals)
           \<lparr>sa_handler = Host_signal_handler, sa_mask = sigmask (os st),
            sa_flags = SA_SIGINFO OR SA_NODEFER OR SA_RESTART\<rparr> st = Inr (act', st')" ..
  from install_loop_live [OF this, of n] n show ?thesis by auto
qed

lemma register_registry:
  assumes r: "register_signal_handlers mask_ok ok st = Inr st'"
  shows "g_previous_sigaction st' n =
     (if n \<in> set (default_signals @ optional_signals) then sigactions (os st) n
      else g_previous_sigaction st n)"
proof -
  from register_as_loop [OF r] obtain act' where
    "install_loop ok (default_signals @ optional_signals)
           \<lparr>sa_handler = Host_signal_handler, sa_mask = sigmask (os st),
            sa_flags = SA_SIGINFO OR SA_NODEFER OR SA_RESTART\<rparr> st = Inr (act', st')" ..
  from install_loop_registry [OF this catalog_distinct] show ?thesis .
qed

lemma register_mask:
  assumes "register_signal_handlers mask_ok ok st = Inr st'"
    and "i < length (default_signals @ optional_signals)"
  shows "sa_mask (sigactions (os st') ((default_signals @ optional_signals) ! i)) =
         sigmask (os st) - set (take (Suc i) (default_signals @ optional_signals))"
proof -
  from register_as_loop [OF assms(1)] obtain act' where
    "install_loop ok (default_signals @ optional_signals)
           \<lparr>sa_handler = Host_signal_handler, sa_mask = sigmask (os st),
            sa_flags = SA_SIGINFO OR SA_NODEFER OR SA_RESTART\<rparr> st = Inr (act', st')" ..
  from install_loop_mask [OF this catalog_distinct assms(2)] show ?thesis by simp
qed

text \<open>
  Claim C8. If the query of the signal mask fails, or the registration fails for any
  catalog signal, the routine aborts. If it returns, the query and every registration
  have succeeded, and every catalog signal has \<open>_host_signal_handler\<close> as its live handler,
  registered with \<open>SA_SIGINFO | SA_NODEFER | SA_RESTART\<close>, and its previous disposition
  saved.
\<close>

theorem installation_failure_aborts:
  "(\<not> mask_ok \<or> (\<exists>n\<in>set (default_signals @ optional_signals). \<not> ok n) \<longrightarrow>
      register_signal_handlers mask_ok ok st = Inl Aborted) \<and>
   (register_signal_handlers mask_ok ok st = Inr st' \<longrightarrow>
      mask_ok \<and>
      (\<forall>n\<in>set (default_signals @ optional_signals).
         ok n \<and> sa_handler (sigactions (os st') n) = Host_signal_handler \<and>
         sa_flags (sigactions (os st') n) = SA_SIGINFO OR SA_NODEFER OR SA_RESTART \<and>
         g_previous_sigaction st' n = sigactions (os st) n))"
proof (intro conjI impI ballI)
  assume "\<not> mask_ok \<or> (\<exists>n\<in>set (default_signals @ optional_signals). \<not> ok n)"
  then show "register_signal_handlers mask_ok ok st = Inl Aborted"
    by (rule register_abort)
next
  assume r: "register_signal_handlers mask_ok ok st = Inr st'"
  have good: "\<not> (\<not> mask_ok \<or> (\<exists>n\<in>set (default_signals @ optional_signals). \<not> ok n))"
  proof
    assume "\<not> mask_ok \<or> (\<exists>n\<in>set (default_signals @ optional_signals). \<not> ok n)"
    then have "register_signal_handlers mask_ok ok st = Inl Aborted"
      by (rule register_abort)
    with r show False by simp
  qed
  from good show mask_ok by blast
  fix n assume n: "n \<in> set (default_signals @ optional_signals)"
  from good n show "ok n" by blast
  show "sa_handler (sigactions (os st') n) = Host_signal_handler"
    using register_installed [OF r n] by simp
  show "sa_flags (sigactions (os st') n) = SA_SIGINFO OR SA_NODEFER OR SA_RESTART"
    using register_installed [OF r n] by simp
  show "g_previous_sigaction st' n = sigactions (os st) n"
    using register_registry [OF r, of n] n by simp
qed

theorem installation_failure_aborts_witness:
  "register_signal_handlers True (fails_at SIGUSR1) fresh_state = Inl Aborted \<and>
   register_signal_handlers False all_ok fresh_state = Inl Aborted \<and>
   (\<exists>st'. register_signal_handlers True all_ok fresh_state = Inr st' \<and>
      sa_handler (sigactions (os st') SIGSEGV) = Host_signal_handler)"
proof -
  have bad: "\<exists>n\<in>set (default_signals @ optional_signals). \<not> fails_at SIGUSR1 n"
    by (simp add: fails_at_def optional_signals_def)
  have "\<forall>n\<in>set (default_signals @ optional_signals). all_ok n"
    by (simp add: all_ok_def)
  then obtain st' where r: "register_signal_handlers True all_ok fresh_state = Inr st'"
    using register_succeeds [of True all_ok fresh_state] by blast
  have segv: "SIGSEGV \<in> set (default_signals @ optional_signals)"
    by (simp add: default_signals_def)
  have "sa_handler (sigactions (os st') SIGSEGV) = Host_signal_handler"
    using installation_failure_aborts [where mask_ok = True and ok = all_ok
        and st = fresh_state and st' = st'] r segv
    by blast
  with r have "\<exists>st'. register_signal_handlers True all_ok fresh_state = Inr st' \<and>
      sa_handler (sigactions (os st') SIGSEGV) = Host_signal_handler"
    by blast
  then show ?thesis
    using bad
      installation_failure_aborts [where mask_ok = True and ok = "fails_at SIGUSR1"
        and st = fresh_state and st' = fresh_state]
      installation_failure_aborts [where mask_ok = False and ok = all_ok
        and st = fresh_state and st' = fresh_state]
    by blast
qed

text \<open>
  Claim C4 at a process that has \<open>SIGSEGV\<close> blocked when it initialises, every
  registration succeeding. The caller's mask without the catalog signals is empty, but the
  handler of \<open>SIGBUS\<close>, the first signal registered, gets the mask \<open>{SIGSEGV}\<close>: each
  round of the loop removes the round's own signal just before it registers, so a signal
  registered early keeps the catalog signals that come later in its mask.
\<close>

theorem early_registration_keeps_later_signals:
  "registered_mask SIGBUS (register_signal_handlers True all_ok blocked_segv_state) =
     Some {SIGSEGV} \<and>
   sigmask (os blocked_segv_state) - set (default_signals @ optional_signals) = {}"
proof -
  have "\<forall>n\<in>set (default_signals @ optional_signals). all_ok n"
    by (simp add: all_ok_def)
  then obtain st' where r: "register_signal_handlers True all_ok blocked_segv_state = Inr st'"
    using register_succeeds [of True all_ok blocked_segv_state] by blast
  have "sa_mask (sigactions (os st') ((default_signals @ optional_signals) ! 0)) =
         sigmask (os blocked_segv_state) - set (take (Suc 0) (default_signals @ optional_signals))"
    by (rule register_mask [OF r]) (simp add: default_signals_def)
  then have "sa_mask (sigactions (os st') SIGBUS) = {SIGSEGV}"
    by (simp add: default_signals_def blocked_segv_state_def signal_defs)
  moreover have "sigmask (os blocked_segv_state) - set (default_signals @ optional_signals) = {}"
    by (simp add: default_signals_def blocked_segv_state_def)
  ultimately show ?thesis using r by (simp add: registered_mask_def)
qed

section \<open>Who writes the saved dispositions\<close>

text \<open>
  Claim C3, as the code has it. Installation writes the saved disposition of every catalog
  signal, with the disposition that was live before, and of no other signal. A delivery
  leaves every saved disposition as it was, except in the chaining branch (the runtime
  does not handle the exception and the saved handler is not \<open>SIG_DFL\<close>), where the
  entry of the delivered signal is rewritten: its mask gains the signal unless the saved
  flags carry \<open>SA_NODEFER\<close>, its handler becomes \<open>SIG_DFL\<close> when the saved flags carry
  \<open>SA_RESETHAND\<close>, and its flags stay.
\<close>

theorem registry_writes:
  "(register_signal_handlers mask_ok ok st_before = Inr st_after \<longrightarrow>
      g_previous_sigaction st_after n =
        (if n \<in> set (default_signals @ optional_signals) then sigactions (os st_before) n
         else g_previous_sigaction st_before n)) \<and>
   g_previous_sigaction (host_signal_handler oe invoke sig_num sig_info sig_data st) n =
     (if n = sig_num \<and>
         oe (build_host_context sig_num sig_info sig_data) \<noteq> OE_EXCEPTION_CONTINUE_EXECUTION \<and>
         sa_handler (g_previous_sigaction st sig_num) \<noteq> SIG_DFL
      then \<lparr>sa_handler =
              (if sa_flags (g_previous_sigaction st sig_num) AND SA_RESETHAND \<noteq> 0
               then SIG_DFL else sa_handler (g_previous_sigaction st sig_num)),
            sa_mask =
              (if sa_flags (g_previous_sigaction st sig_num) AND SA_NODEFER = 0
               then insert sig_num (sa_mask (g_previous_sigaction st sig_num))
               else sa_mask (g_previous_sigaction st sig_num)),
            sa_flags = sa_flags (g_previous_sigaction st sig_num)\<rparr>
      else g_previous_sigaction st n)"
proof (intro conjI impI)
  assume "register_signal_handlers mask_ok ok st_before = Inr st_after"
  then show "g_previous_sigaction st_after n =
        (if n \<in> set (default_signals @ optional_signals) then sigactions (os st_before) n
         else g_previous_sigaction st_before n)"
    by (rule register_registry)
next
  show "g_previous_sigaction (host_signal_handler oe invoke sig_num sig_info sig_data st) n =
     (if n = sig_num \<and>
         oe (build_host_context sig_num sig_info sig_data) \<noteq> OE_EXCEPTION_CONTINUE_EXECUTION \<and>
         sa_handler (g_previous_sigaction st sig_num) \<noteq> SIG_DFL
      then \<lparr>sa_handler =
              (if sa_flags (g_previous_sigaction st sig_num) AND SA_RESETHAND \<noteq> 0
               then SIG_DFL else sa_handler (g_previous_sigaction st sig_num)),
            sa_mask =
              (if sa_flags (g_previous_sigaction st sig_num) AND SA_NODEFER = 0
               then insert sig_num (sa_mask (g_previous_sigaction st sig_num))
               else sa_mask (g_previous_sigaction st sig_num)),
            sa_flags = sa_flags (g_previous_sigaction st sig_num)\<rparr>
      else g_previous_sigaction st n)"
    by (simp add: handler_registry chain_previous_registry)
qed

theorem registry_writes_witness:
  "(\<exists>st_after. register_signal_handlers True all_ok fresh_state = Inr st_after \<and>
      g_previous_sigaction st_after SIGUSR1 = sigactions (os fresh_state) SIGUSR1) \<and>
   g_previous_sigaction
     (host_signal_handler declines returns_at_once SIGUSR1 example_info example_context
        oneshot_state) SIGUSR1 =
     \<lparr>sa_handler = SIG_DFL, sa_mask = {SIGUSR1}, sa_flags = SA_RESETHAND\<rparr> \<and>
   g_previous_sigaction
     (host_signal_handler declines returns_at_once SIGUSR1 example_info example_context
        oneshot_state) SIGSEGV = g_previous_sigaction oneshot_state SIGSEGV"
proof -
  have "\<forall>n\<in>set (default_signals @ optional_signals). all_ok n"
    by (simp add: all_ok_def)
  then obtain st_after where r: "register_signal_handlers True all_ok fresh_state = Inr st_after"
    using register_succeeds [of True all_ok fresh_state] by blast
  have "SIGUSR1 \<in> set (default_signals @ optional_signals)"
    by (simp add: optional_signals_def)
  then have "g_previous_sigaction st_after SIGUSR1 = sigactions (os fresh_state) SIGUSR1"
    using r registry_writes [where mask_ok = True and ok = all_ok and st_before = fresh_state
        and st_after = st_after and n = SIGUSR1 and oe = declines and invoke = returns_at_once
        and sig_num = SIGUSR1 and sig_info = example_info and sig_data = example_context
        and st = oneshot_state]
    by simp
  with r have a: "\<exists>st_after. register_signal_handlers True all_ok fresh_state = Inr st_after \<and>
      g_previous_sigaction st_after SIGUSR1 = sigactions (os fresh_state) SIGUSR1"
    by blast
  have b: "g_previous_sigaction
     (host_signal_handler declines returns_at_once SIGUSR1 example_info example_context
        oneshot_state) SIGUSR1 =
     \<lparr>sa_handler = SIG_DFL, sa_mask = {SIGUSR1}, sa_flags = SA_RESETHAND\<rparr>"
    using registry_writes [where mask_ok = True and ok = all_ok and st_before = fresh_state
        and st_after = fresh_state and n = SIGUSR1 and oe = declines and invoke = returns_at_once
        and sig_num = SIGUSR1 and sig_info = example_info and sig_data = example_context
        and st = oneshot_state]
    by (simp add: example_defs flag_defs)
  have c: "g_previous_sigaction
     (host_signal_handler declines returns_at_once SIGUSR1 example_info example_context
        oneshot_state) SIGSEGV = g_previous_sigaction oneshot_state SIGSEGV"
    using registry_writes [where mask_ok = True and ok = all_ok and st_before = fresh_state
        and st_after = fresh_state and n = SIGSEGV and oe = declines and invoke = returns_at_once
        and sig_num = SIGUSR1 and sig_info = example_info and sig_data = example_context
        and st = oneshot_state]
    by (simp add: signal_defs)
  from a b c show ?thesis by blast
qed

text \<open>
  Claim C3 as stated fails: the chained delivery of \<open>SIGUSR1\<close> through a saved one-shot
  disposition rewrites the saved entry of \<open>SIGUSR1\<close>, long after installation.
\<close>

theorem registry_mutated_counterexample:
  "declines (build_host_context SIGUSR1 example_info example_context) \<noteq>
     OE_EXCEPTION_CONTINUE_EXECUTION \<and>
   g_previous_sigaction
     (host_signal_handler declines returns_at_once SIGUSR1 example_info example_context
        oneshot_state) SIGUSR1 \<noteq>
   g_previous_sigaction oneshot_state SIGUSR1"
  by (simp add: host_signal_handler_def chain_previous_def pthread_sigmask_set_def Let_def
      example_defs flag_defs)

end
